theory Spec2Isabelle
  imports Complex_Main
begin

section \<open>The benchmark driver \<^verbatim>\<open>bench/pauli_from_list_qinfo.py\<close>\<close>

text \<open>
  The script draws random Pauli labels, times an operation of an external library on
  them over a grid of sizes, prints one line per grid point and returns the timings.

  Python integers are \<open>int\<close>, strings are \<open>string\<close>, lists are lists. Python floats
  are modelled as \<open>real\<close>: rounding is not modelled, and the clock returns finite
  values. Where a statement is about a float being finite, the arithmetic is read on
  floats with infinities. Everything the script takes from outside (the random
  generator, the clock, the three library calls and the rendering of a float as text)
  is a field of an environment, so that every statement below holds for any generator,
  any clock and any library. An exception is a value \<open>Inl err\<close>.
\<close>

subsection \<open>Errors\<close>

datatype error = IndexError | OverflowError | ZeroDivisionError | ExternalError string

definition and_then :: "error + 'a \<Rightarrow> ('a \<Rightarrow> error + 'b) \<Rightarrow> error + 'b" where
  "and_then m f = (case m of Inl err \<Rightarrow> Inl err | Inr x \<Rightarrow> f x)"

subsection \<open>The environment\<close>

text \<open>
  \<open>'g\<close> is the state of the process-wide random generator, \<open>'w\<close> the state of the
  world outside the script (the clock and the library), \<open>'p\<close> and \<open>'o\<close> the library's
  \<^verbatim>\<open>PauliList\<close> and \<open>SparsePauliOp\<close> objects.
\<close>

record ('g, 'w, 'p, 'o) env =
  seed :: "int \<Rightarrow> 'g"
  random :: "'g \<Rightarrow> real \<times> 'g"
  perf_counter :: "'w \<Rightarrow> real \<times> 'w"
  PauliList :: "string list \<Rightarrow> 'w \<Rightarrow> error + ('p \<times> 'w)"
  SparsePauliOp :: "'p \<Rightarrow> 'w \<Rightarrow> error + ('o \<times> 'w)"
  simplify :: "'o \<Rightarrow> 'w \<Rightarrow> error + ('o \<times> 'w)"
  float_str :: "real \<Rightarrow> string"

text \<open>\<^verbatim>\<open>random.random()\<close> is documented to return a float in \<open>[0.0, 1.0)\<close>.\<close>

definition unit_interval :: "('g, 'w, 'p, 'o) env \<Rightarrow> bool" where
  "unit_interval e \<longleftrightarrow> (\<forall>g. 0 \<le> fst (random e g) \<and> fst (random e g) < 1)"

subsection \<open>Subscripts, \<^verbatim>\<open>random.choices\<close> and \<^verbatim>\<open>str.join\<close>\<close>

text \<open>
  \<^verbatim>\<open>population[i]\<close>: a negative index counts from the end, an index outside
  \<open>[-len, len)\<close> raises.
\<close>

definition subscript :: "'a list \<Rightarrow> int \<Rightarrow> error + 'a" where
  "subscript xs i =
     (if i < - int (length xs) \<or> int (length xs) \<le> i then Inl IndexError
      else if i < 0 then Inr (xs ! nat (int (length xs) + i))
      else Inr (xs ! nat i))"

text \<open>Subscripting a Python string gives one-character strings.\<close>

definition chars :: "string \<Rightarrow> string list" where
  "chars s = map (\<lambda>c. [c]) s"

text \<open>
  The standard library's unweighted \<^verbatim>\<open>choices\<close>:
  \<^verbatim>\<open>
  n = len(population)
  n += 0.0
  return [population[floor(random() * n)] for i in _repeat(None, k)]
  \<close>
  \<^verbatim>\<open>repeat(None, k)\<close> is built before the first element is drawn. It takes \<open>k\<close> as a
  C \<^verbatim>\<open>ssize_t\<close> (64 bits) and raises \<^verbatim>\<open>OverflowError\<close> for a \<open>k\<close> outside
  \<open>[-2^63, 2^63)\<close>; inside that range it yields nothing for \<open>k \<le> 0\<close>, which is
  \<open>nat k = 0\<close>. Memory is not modelled: a list of any length can be built.
\<close>

definition ssize_t :: "int \<Rightarrow> bool" where
  "ssize_t k \<longleftrightarrow> - (2 ^ 63) \<le> k \<and> k < 2 ^ 63"

fun choices_from ::
  "('g \<Rightarrow> real \<times> 'g) \<Rightarrow> 'a list \<Rightarrow> nat \<Rightarrow> 'g \<Rightarrow> error + ('a list \<times> 'g)" where
  "choices_from rnd population 0 g = Inr ([], g)"
| "choices_from rnd population (Suc m) g =
     (case rnd g of (r, g1) \<Rightarrow>
        and_then (subscript population \<lfloor>r * real (length population)\<rfloor>) (\<lambda>c.
        and_then (choices_from rnd population m g1) (\<lambda>(cs, g2).
        Inr (c # cs, g2))))"

definition choices ::
  "('g, 'w, 'p, 'o) env \<Rightarrow> 'a list \<Rightarrow> int \<Rightarrow> 'g \<Rightarrow> error + ('a list \<times> 'g)" where
  "choices e population k g =
     (if ssize_t k then choices_from (random e) population (nat k) g
      else Inl OverflowError)"

fun join :: "string \<Rightarrow> string list \<Rightarrow> string" where
  "join sep [] = []"
| "join sep [x] = x"
| "join sep (x # y # ys) = x @ sep @ join sep (y # ys)"

subsection \<open>\<^verbatim>\<open>rand_label\<close>\<close>

text \<open>
  \<^verbatim>\<open>
  def rand_label(k, n):
      return ["".join(random.choices("IXYZ", k=k)) for _ in range(n)]
  \<close>
  \<^verbatim>\<open>range(n)\<close> is empty for \<open>n \<le> 0\<close>. The function reads and advances the generator.
\<close>

fun labels_from ::
  "('g, 'w, 'p, 'o) env \<Rightarrow> int \<Rightarrow> nat \<Rightarrow> 'g \<Rightarrow> error + (string list \<times> 'g)" where
  "labels_from e k 0 g = Inr ([], g)"
| "labels_from e k (Suc m) g =
     and_then (choices e (chars ''IXYZ'') k g) (\<lambda>(cs, g1).
     and_then (labels_from e k m g1) (\<lambda>(ls, g2).
     Inr (join '''' cs # ls, g2)))"

definition rand_label ::
  "('g, 'w, 'p, 'o) env \<Rightarrow> int \<Rightarrow> int \<Rightarrow> 'g \<Rightarrow> error + (string list \<times> 'g)" where
  "rand_label e k n g = labels_from e k (nat n) g"

subsection \<open>\<^verbatim>\<open>timeit\<close> and the timed statement\<close>

text \<open>
  The timed statement is \<^verbatim>\<open>lambda: SparsePauliOp(PauliList(label)).simplify()\<close>:
  three library calls, the value of the last one dropped.
\<close>

definition stmt :: "('g, 'w, 'p, 'o) env \<Rightarrow> string list \<Rightarrow> 'w \<Rightarrow> error + 'w" where
  "stmt e label w =
     and_then (PauliList e label w) (\<lambda>(p, w1).
     and_then (SparsePauliOp e p w1) (\<lambda>(op, w2).
     and_then (simplify e op w2) (\<lambda>(res, w3).
     Inr w3)))"

text \<open>
  The standard library's \<^verbatim>\<open>timeit(stmt, number=number)\<close> with the default timer
  \<^verbatim>\<open>time.perf_counter\<close>:
  \<^verbatim>\<open>
  _t0 = _timer()
  for _i in itertools.repeat(None, number):
      _stmt()
  _t1 = _timer()
  return _t1 - _t0
  \<close>
\<close>

fun repeat_stmt :: "('w \<Rightarrow> error + 'w) \<Rightarrow> nat \<Rightarrow> 'w \<Rightarrow> error + 'w" where
  "repeat_stmt f 0 w = Inr w"
| "repeat_stmt f (Suc m) w = and_then (f w) (repeat_stmt f m)"

definition timeit ::
  "('g, 'w, 'p, 'o) env \<Rightarrow> ('w \<Rightarrow> error + 'w) \<Rightarrow> int \<Rightarrow> 'w \<Rightarrow> error + (real \<times> 'w)" where
  "timeit e f number w =
     (case perf_counter e w of (t0, w0) \<Rightarrow>
        and_then (repeat_stmt f (nat number) w0) (\<lambda>w1.
        case perf_counter e w1 of (t1, w2) \<Rightarrow> Inr (t1 - t0, w2)))"

subsection \<open>Formatting\<close>

text \<open>\<^verbatim>\<open>str\<close> of an integer, as the f-string renders \<open>k\<close> and \<open>n\<close>.\<close>

definition digit_char :: "nat \<Rightarrow> char" where
  "digit_char d = ''0123456789'' ! d"

fun digits :: "nat \<Rightarrow> string" where
  "digits m = (if m < 10 then [digit_char m] else digits (m div 10) @ [digit_char (m mod 10)])"

declare digits.simps [simp del]

definition str_int :: "int \<Rightarrow> string" where
  "str_int i = (if i < 0 then CHR ''-'' # digits (nat (- i)) else digits (nat i))"

text \<open>\<^verbatim>\<open>f'k={k}, n={n}, {t} ms'\<close>\<close>

definition report_line :: "('g, 'w, 'p, 'o) env \<Rightarrow> int \<Rightarrow> int \<Rightarrow> real \<Rightarrow> string" where
  "report_line e k n t =
     ''k='' @ str_int k @ '', n='' @ str_int n @ '', '' @ float_str e t @ '' ms''"

subsection \<open>\<^verbatim>\<open>run_benchmarks\<close>\<close>

text \<open>
  The state of a run: the generator, the outside world, and the lines printed so far.
\<close>

record ('g, 'w) state =
  rng :: 'g
  world :: 'w
  stdout :: "string list"

text \<open>
  The measuring part of the loop body:
  \<^verbatim>\<open>
  label = rand_label(k, n)
  number = 20
  if n >= 10_000:
      number = 1
  t = timeit(lambda: SparsePauliOp(PauliList(label)).simplify(), number=number)
  t = t * 1000 / number
  \<close>
\<close>

definition time_trial ::
  "('g, 'w, 'p, 'o) env \<Rightarrow> int \<Rightarrow> int \<Rightarrow> ('g, 'w) state \<Rightarrow> error + (real \<times> ('g, 'w) state)" where
  "time_trial e k n s =
     and_then (rand_label e k n (rng s)) (\<lambda>(label, g1).
     let number = (if 10000 \<le> n then 1 else 20) in
     and_then (timeit e (stmt e label) number (world s)) (\<lambda>(t, w1).
     Inr (t * 1000 / real_of_int number, s\<lparr>rng := g1, world := w1\<rparr>)))"

text \<open>
  The whole loop body: measure, then
  \<^verbatim>\<open>
  quantum_info_times.append(t)
  print(f'k={k}, n={n}, {t} ms')
  \<close>
\<close>

definition loop_body ::
  "('g, 'w, 'p, 'o) env \<Rightarrow> int \<Rightarrow> int \<Rightarrow> real list \<times> ('g, 'w) state
     \<Rightarrow> error + (real list \<times> ('g, 'w) state)" where
  "loop_body e k n acc =
     (case acc of (quantum_info_times, s) \<Rightarrow>
        and_then (time_trial e k n s) (\<lambda>(t, s1).
        Inr (quantum_info_times @ [t],
             s1\<lparr>stdout := stdout s1 @ [report_line e k n t]\<rparr>)))"

fun for_n ::
  "('g, 'w, 'p, 'o) env \<Rightarrow> int \<Rightarrow> int list \<Rightarrow> real list \<times> ('g, 'w) state
     \<Rightarrow> error + (real list \<times> ('g, 'w) state)" where
  "for_n e k [] acc = Inr acc"
| "for_n e k (n # ns) acc = and_then (loop_body e k n acc) (for_n e k ns)"

fun for_k ::
  "('g, 'w, 'p, 'o) env \<Rightarrow> int list \<Rightarrow> int list \<Rightarrow> real list \<times> ('g, 'w) state
     \<Rightarrow> error + (real list \<times> ('g, 'w) state)" where
  "for_k e [] ns acc = Inr acc"
| "for_k e (k # ks) ns acc = and_then (for_n e k ns acc) (for_k e ks ns)"

text \<open>
  \<^verbatim>\<open>
  def run_benchmarks():
      quantum_info_times = []
      for k in (10, 100):
          for n in (10, 100, 1000, 5000, 10_000, 100_000):
              ...
      return quantum_info_times
  \<close>
\<close>

definition run_benchmarks ::
  "('g, 'w, 'p, 'o) env \<Rightarrow> ('g, 'w) state \<Rightarrow> error + (real list \<times> ('g, 'w) state)" where
  "run_benchmarks e s = for_k e [10, 100] [10, 100, 1000, 5000, 10000, 100000] ([], s)"

text \<open>
  Running the script: \<^verbatim>\<open>random.seed(123)\<close> at import, then \<^verbatim>\<open>run_benchmarks()\<close>.
\<close>

definition main ::
  "('g, 'w, 'p, 'o) env \<Rightarrow> 'w \<Rightarrow> error + (real list \<times> ('g, 'w) state)" where
  "main e w = run_benchmarks e \<lparr>rng = seed e 123, world = w, stdout = []\<rparr>"

subsection \<open>Environments that are observed\<close>

text \<open>
  What the script does to the outside world is read off a log: the environment
  \<open>observed e\<close> behaves as \<open>e\<close> does and also records every clock reading and every
  library call, in order. The script itself is unchanged; it runs in \<open>observed e\<close> as
  in any other environment.
\<close>

datatype event =
    Clock real
  | Construct "string list"
  | Wrap
  | Canonicalize

definition observed :: "('g, 'w, 'p, 'o) env \<Rightarrow> ('g, 'w \<times> event list, 'p, 'o) env" where
  "observed e =
     \<lparr> seed = seed e,
       random = random e,
       perf_counter = (\<lambda>(w, tr).
         case perf_counter e w of (t, w1) \<Rightarrow> (t, (w1, tr @ [Clock t]))),
       PauliList = (\<lambda>label (w, tr).
         and_then (PauliList e label w) (\<lambda>(p, w1). Inr (p, (w1, tr @ [Construct label])))),
       SparsePauliOp = (\<lambda>p (w, tr).
         and_then (SparsePauliOp e p w) (\<lambda>(op, w1). Inr (op, (w1, tr @ [Wrap])))),
       simplify = (\<lambda>op (w, tr).
         and_then (simplify e op w) (\<lambda>(res, w1). Inr (res, (w1, tr @ [Canonicalize])))),
       float_str = float_str e \<rparr>"

definition events :: "('g, 'w \<times> event list) state \<Rightarrow> event list" where
  "events s = snd (world s)"

text \<open>The batches handed to the constructor, in order.\<close>

fun constructed :: "event list \<Rightarrow> string list list" where
  "constructed [] = []"
| "constructed (Construct label # evs) = label # constructed evs"
| "constructed (ev # evs) = constructed evs"

text \<open>One repetition of the timed statement on a batch, as the log shows it.\<close>

definition repetition :: "string list \<Rightarrow> event list" where
  "repetition label = [Construct label, Wrap, Canonicalize]"

text \<open>
  The repetition policy as the specification words it: one repetition from
  \<open>n = 10000\<close> on, twenty below.
\<close>

definition repetitions :: "int \<Rightarrow> nat" where
  "repetitions n = (if 10000 \<le> n then 1 else 20)"

text \<open>The library never raises.\<close>

definition library_total :: "('g, 'w, 'p, 'o) env \<Rightarrow> bool" where
  "library_total e \<longleftrightarrow>
     (\<forall>label w. \<exists>r. PauliList e label w = Inr r) \<and>
     (\<forall>p w. \<exists>r. SparsePauliOp e p w = Inr r) \<and>
     (\<forall>op w. \<exists>r. simplify e op w = Inr r)"

subsection \<open>The grid, trial by trial\<close>

text \<open>
  The twelve combinations in the order the specification lists them, and the run as
  the specification describes it: one trial per combination, in that order, one sample
  kept per trial.
\<close>

definition grid :: "(int \<times> int) list" where
  "grid = [(10, 10), (10, 100), (10, 1000), (10, 5000), (10, 10000), (10, 100000),
           (100, 10), (100, 100), (100, 1000), (100, 5000), (100, 10000), (100, 100000)]"

fun trials_in_order ::
  "('g, 'w, 'p, 'o) env \<Rightarrow> (int \<times> int) list \<Rightarrow> ('g, 'w) state
     \<Rightarrow> error + (real list \<times> ('g, 'w) state)" where
  "trials_in_order e [] s = Inr ([], s)"
| "trials_in_order e ((k, n) # rest) s =
     and_then (time_trial e k n s) (\<lambda>(t, s1).
     and_then (trials_in_order e rest (s1\<lparr>stdout := stdout s1 @ [report_line e k n t]\<rparr>))
       (\<lambda>(ts, s2). Inr (t # ts, s2)))"

text \<open>The batches a generator yields over a list of combinations, one after the other.\<close>

fun batches_from ::
  "('g, 'w, 'p, 'o) env \<Rightarrow> (int \<times> int) list \<Rightarrow> 'g \<Rightarrow> error + (string list list \<times> 'g)" where
  "batches_from e [] g = Inr ([], g)"
| "batches_from e ((k, n) # rest) g =
     and_then (rand_label e k n g) (\<lambda>(label, g1).
     and_then (batches_from e rest g1) (\<lambda>(bs, g2). Inr (label # bs, g2)))"

text \<open>The lines printed for a list of combinations and their samples.\<close>

fun printed_lines ::
  "('g, 'w, 'p, 'o) env \<Rightarrow> (int \<times> int) list \<Rightarrow> real list \<Rightarrow> string list" where
  "printed_lines e ((k, n) # rest) (t # ts) = report_line e k n t # printed_lines e rest ts"
| "printed_lines e rest ts = []"

text \<open>
  What the constructor is handed over a list of combinations, when each trial's batch
  goes to it once per repetition.
\<close>

fun handed :: "(int \<times> int) list \<Rightarrow> string list list \<Rightarrow> string list list" where
  "handed ((k, n) # rest) (b # bs) = replicate (repetitions n) b @ handed rest bs"
| "handed rest bs = []"

subsection \<open>A concrete environment\<close>

text \<open>
  A generator that counts and is read modulo four, a clock that is the world itself,
  and a library whose every call takes one unit of time.
\<close>

definition counter_env :: "(nat, real, unit, unit) env" where
  "counter_env =
     \<lparr> seed = (\<lambda>i. nat \<bar>i\<bar>),
       random = (\<lambda>g. (real (g mod 4) / 4, Suc g)),
       perf_counter = (\<lambda>w. (w, w)),
       PauliList = (\<lambda>label w. Inr ((), w + 1)),
       SparsePauliOp = (\<lambda>p w. Inr ((), w + 1)),
       simplify = (\<lambda>op w. Inr ((), w + 1)),
       float_str = (\<lambda>t. ''?'') \<rparr>"

text \<open>
  A second environment with the same generator and another world: a clock that runs
  at its own pace and moves when read, and library calls of different cost.
\<close>

definition busy_env :: "(nat, nat, nat, nat) env" where
  "busy_env =
     \<lparr> seed = (\<lambda>i. nat \<bar>i\<bar>),
       random = (\<lambda>g. (real (g mod 4) / 4, Suc g)),
       perf_counter = (\<lambda>w. (real w / 2, w + 3)),
       PauliList = (\<lambda>label w. Inr (length label, w + 7 * length label)),
       SparsePauliOp = (\<lambda>p w. Inr (p, w + p)),
       simplify = (\<lambda>op w. Inr (op, w + 11)),
       float_str = (\<lambda>t. ''?'') \<rparr>"


subsection \<open>Floats with infinities\<close>

text \<open>
  The samples above are reals. To say that a sample is a finite float, the arithmetic
  on the path is also given on IEEE doubles as Python has them: a finite value, an
  infinity or a NaN. Rounding to nearest is not modelled inside the range of the finite
  doubles: a result of magnitude below \<open>2^1024 - 2^970\<close> is kept as it is. A result at
  or beyond that magnitude becomes an infinity, as rounding to nearest makes it.
  \<^verbatim>\<open>-\<close>, \<^verbatim>\<open>*\<close> and \<^verbatim>\<open>/\<close> on floats do not raise on overflow; \<^verbatim>\<open>/\<close> raises on a
  zero divisor, and an integer operand is converted to a float first, which raises when
  the integer is too large.
\<close>

datatype pyfloat = Finite real | PosInf | NegInf | NaN

definition overflow_threshold :: real where
  "overflow_threshold = 2 ^ 1024 - 2 ^ 970"

definition rounded :: "real \<Rightarrow> pyfloat" where
  "rounded x =
     (if overflow_threshold \<le> x then PosInf
      else if x \<le> - overflow_threshold then NegInf
      else Finite x)"

definition float_neg :: "pyfloat \<Rightarrow> pyfloat" where
  "float_neg x = (case x of Finite a \<Rightarrow> Finite (- a) | PosInf \<Rightarrow> NegInf
                   | NegInf \<Rightarrow> PosInf | NaN \<Rightarrow> NaN)"

fun float_sub :: "pyfloat \<Rightarrow> pyfloat \<Rightarrow> pyfloat" where
  "float_sub (Finite a) (Finite b) = rounded (a - b)"
| "float_sub NaN y = NaN"
| "float_sub x NaN = NaN"
| "float_sub PosInf PosInf = NaN"
| "float_sub NegInf NegInf = NaN"
| "float_sub PosInf y = PosInf"
| "float_sub NegInf y = NegInf"
| "float_sub (Finite a) PosInf = NegInf"
| "float_sub (Finite a) NegInf = PosInf"

definition scaled_inf :: "pyfloat \<Rightarrow> real \<Rightarrow> pyfloat" where
  "scaled_inf z a = (if a = 0 then NaN else if 0 < a then z else float_neg z)"

fun float_mul :: "pyfloat \<Rightarrow> pyfloat \<Rightarrow> pyfloat" where
  "float_mul (Finite a) (Finite b) = rounded (a * b)"
| "float_mul NaN y = NaN"
| "float_mul x NaN = NaN"
| "float_mul (Finite a) y = scaled_inf y a"
| "float_mul x (Finite b) = scaled_inf x b"
| "float_mul PosInf y = y"
| "float_mul NegInf y = float_neg y"

fun float_truediv :: "pyfloat \<Rightarrow> pyfloat \<Rightarrow> error + pyfloat" where
  "float_truediv x (Finite b) =
     (if b = 0 then Inl ZeroDivisionError
      else Inr (case x of Finite a \<Rightarrow> rounded (a / b) | NaN \<Rightarrow> NaN
                  | z \<Rightarrow> (if 0 < b then z else float_neg z)))"
| "float_truediv NaN y = Inr NaN"
| "float_truediv x NaN = Inr NaN"
| "float_truediv (Finite a) y = Inr (Finite 0)"
| "float_truediv x y = Inr NaN"

definition int_to_float :: "int \<Rightarrow> error + pyfloat" where
  "int_to_float i =
     (if overflow_threshold \<le> \<bar>real_of_int i\<bar> then Inl OverflowError
      else Inr (Finite (real_of_int i)))"

text \<open>
  The sample from the two clock readings: \<^verbatim>\<open>_t1 - _t0\<close> in \<^verbatim>\<open>timeit\<close>, then
  \<^verbatim>\<open>t * 1000 / number\<close>.
\<close>

definition float_sample :: "pyfloat \<Rightarrow> pyfloat \<Rightarrow> int \<Rightarrow> error + pyfloat" where
  "float_sample t0 t1 number =
     and_then (int_to_float 1000) (\<lambda>thousand.
     and_then (int_to_float number) (\<lambda>divisor.
     float_truediv (float_mul (float_sub t1 t0) thousand) divisor))"

text \<open>
  The clock readings in a log, in order, and a bound on their magnitude that any
  clock in seconds meets: CPython keeps the reading of \<^verbatim>\<open>perf_counter\<close> as a count of
  nanoseconds in 64 bits, which is less than \<open>2^34\<close> seconds.
\<close>

fun readings :: "event list \<Rightarrow> real list" where
  "readings [] = []"
| "readings (Clock t # evs) = t # readings evs"
| "readings (ev # evs) = readings evs"

definition clock_range :: real where
  "clock_range = 2 ^ 1000"

text \<open>
  The clock readings logged up to the end of a pass through the loop body, read off
  its result.
\<close>

definition pass_readings ::
  "error + (real list \<times> ('g, 'w \<times> event list) state) \<Rightarrow> real list" where
  "pass_readings r = (case r of Inl err \<Rightarrow> [] | Inr (acc, s) \<Rightarrow> readings (events s))"

section \<open>Sequencing and \<^verbatim>\<open>rand_label\<close>\<close>

lemma and_then_Inr [simp]: "and_then (Inr x) f = f x"
  by (simp add: and_then_def)

lemma and_then_Inl [simp]: "and_then (Inl err) f = Inl err"
  by (simp add: and_then_def)

lemma and_then_eq_Inr:
  "and_then m f = Inr y \<longleftrightarrow> (\<exists>x. m = Inr x \<and> f x = Inr y)"
  by (cases m) simp_all

lemma join_empty: "join [] xs = concat xs"
  by (induction "[] :: string" xs rule: join.induct) simp_all

lemma concat_chars:
  assumes "set cs \<subseteq> set (chars s)"
  shows "length (concat cs) = length cs \<and> set (concat cs) \<subseteq> set s"
  using assms
proof (induction cs)
  case Nil
  show ?case by simp
next
  case (Cons c cs)
  from Cons.prems obtain x where "x \<in> set s" and "c = [x]"
    by (auto simp: chars_def)
  moreover from Cons have "length (concat cs) = length cs \<and> set (concat cs) \<subseteq> set s"
    by simp
  ultimately show ?case by simp
qed

lemma subscript_in_range:
  assumes "0 \<le> i" and "i < int (length xs)"
  shows "subscript xs i = Inr (xs ! nat i)"
  using assms by (simp add: subscript_def)

lemma floor_scaled_bounds:
  fixes r :: real
  assumes "0 \<le> r" and "r < 1"
  shows "0 \<le> \<lfloor>r * real n\<rfloor> \<and> (0 < n \<longrightarrow> \<lfloor>r * real n\<rfloor> < int n)"
proof
  show "0 \<le> \<lfloor>r * real n\<rfloor>" using assms by simp
  show "0 < n \<longrightarrow> \<lfloor>r * real n\<rfloor> < int n"
  proof
    assume "0 < n"
    then have "r * real n < real n" using assms by simp
    then show "\<lfloor>r * real n\<rfloor> < int n" by (simp add: floor_less_iff)
  qed
qed

lemma choices_from_ok:
  assumes "\<forall>g. 0 \<le> fst (rnd g) \<and> fst (rnd g) < 1" and "population \<noteq> []"
  shows "\<exists>cs g'. choices_from rnd population m g = Inr (cs, g') \<and> length cs = m
           \<and> set cs \<subseteq> set population"
proof (induction m arbitrary: g)
  case 0
  show ?case by simp
next
  case (Suc m)
  obtain r g1 where step: "rnd g = (r, g1)" by (cases "rnd g")
  with assms(1) have r: "0 \<le> r" "r < 1" by (metis fst_conv)+
  let ?i = "\<lfloor>r * real (length population)\<rfloor>"
  from r assms(2) have i: "0 \<le> ?i" "?i < int (length population)"
    using floor_scaled_bounds[of r "length population"] by simp_all
  then have sub: "subscript population ?i = Inr (population ! nat ?i)"
    by (rule subscript_in_range)
  from i have "nat ?i < length population" by linarith
  then have mem: "population ! nat ?i \<in> set population" by (rule nth_mem)
  from Suc.IH[of g1] obtain cs g' where
    rest: "choices_from rnd population m g1 = Inr (cs, g')" "length cs = m"
      "set cs \<subseteq> set population" by blast
  show ?case using step sub rest mem by simp
qed

lemma labels_from_ok:
  assumes "unit_interval e" and "ssize_t k"
  shows "\<exists>ls g'. labels_from e k m g = Inr (ls, g') \<and> length ls = m
           \<and> (\<forall>l \<in> set ls. length l = nat k
                 \<and> set l \<subseteq> {CHR ''I'', CHR ''X'', CHR ''Y'', CHR ''Z''})"
proof (induction m arbitrary: g)
  case 0
  show ?case by simp
next
  case (Suc m)
  from assms have rng: "\<forall>g. 0 \<le> fst (random e g) \<and> fst (random e g) < 1"
    by (simp add: unit_interval_def)
  have "chars ''IXYZ'' \<noteq> []" by (simp add: chars_def)
  from choices_from_ok[OF rng this, of "nat k" g] obtain cs g1 where
    cs: "choices e (chars ''IXYZ'') k g = Inr (cs, g1)" "length cs = nat k"
      "set cs \<subseteq> set (chars ''IXYZ'')" using assms(2) by (auto simp: choices_def)
  from concat_chars[OF cs(3)] have len: "length (concat cs) = length cs"
    and alphabet: "set (concat cs) \<subseteq> {CHR ''I'', CHR ''X'', CHR ''Y'', CHR ''Z''}"
    by simp_all
  from Suc.IH[of g1] obtain ls g' where
    rest: "labels_from e k m g1 = Inr (ls, g')" "length ls = m"
      "\<forall>l \<in> set ls. length l = nat k
          \<and> set l \<subseteq> {CHR ''I'', CHR ''X'', CHR ''Y'', CHR ''Z''}" by blast
  show ?case using cs(1,2) rest len alphabet by (simp add: join_empty)
qed

lemma rand_label_total:
  assumes "unit_interval e" and "ssize_t k"
  shows "\<exists>ls g'. rand_label e k n g = Inr (ls, g')"
  using labels_from_ok[OF assms, of "nat n" g] unfolding rand_label_def by blast

lemma labels_from_empty_strings:
  assumes "ssize_t k" and "k \<le> 0"
  shows "labels_from e k m g = Inr (replicate m [], g)"
  using assms by (induction m) (simp_all add: choices_def)

lemma labels_from_random:
  assumes "random e1 = random e2"
  shows "labels_from e1 k m g = labels_from e2 k m g"
  using assms by (induction m arbitrary: g) (simp_all add: choices_def)

lemma rand_label_random:
  assumes "random e1 = random e2"
  shows "rand_label e1 k n g = rand_label e2 k n g"
  unfolding rand_label_def by (rule labels_from_random[OF assms])

lemma batches_from_random:
  assumes "random e1 = random e2"
  shows "batches_from e1 g s = batches_from e2 g s"
proof (induction g arbitrary: s)
  case Nil
  show ?case by simp
next
  case (Cons x g)
  obtain k n where x: "x = (k, n)" by (cases x)
  show ?case
    unfolding x batches_from.simps rand_label_random[OF assms] Cons.IH ..
qed

section \<open>The loops, trial by trial\<close>

lemma time_trial_stdout:
  assumes "time_trial e k n s = Inr (t, s')"
  shows "stdout s' = stdout s"
  using assms by (auto simp: time_trial_def and_then_eq_Inr Let_def)

lemma trials_in_order_append:
  "trials_in_order e (xs @ ys) s =
     and_then (trials_in_order e xs s) (\<lambda>(ts1, s1).
     and_then (trials_in_order e ys s1) (\<lambda>(ts2, s2). Inr (ts1 @ ts2, s2)))"
proof (induction xs arbitrary: s)
  case Nil
  show ?case by (cases "trials_in_order e ys s") auto
next
  case (Cons x xs)
  obtain k n where x: "x = (k, n)" by (cases x)
  show ?case
  proof (cases "time_trial e k n s")
    case (Inl err)
    then show ?thesis by (simp add: x)
  next
    case (Inr r)
    obtain t s1 where r: "r = (t, s1)" by (cases r)
    let ?s1 = "s1\<lparr>stdout := stdout s1 @ [report_line e k n t]\<rparr>"
    show ?thesis
    proof (cases "trials_in_order e xs ?s1")
      case (Inl err)
      with Inr r show ?thesis by (simp add: x Cons.IH)
    next
      case inner: (Inr r1)
      obtain ts1 s2 where r1: "r1 = (ts1, s2)" by (cases r1)
      show ?thesis
        using Inr r inner r1
        by (cases "trials_in_order e ys s2") (auto simp: x Cons.IH)
    qed
  qed
qed

lemma for_n_trials:
  "for_n e k ns (acc, s) =
     and_then (trials_in_order e (map (Pair k) ns) s) (\<lambda>(ts, s'). Inr (acc @ ts, s'))"
proof (induction ns arbitrary: acc s)
  case Nil
  show ?case by simp
next
  case (Cons n ns)
  show ?case
  proof (cases "time_trial e k n s")
    case (Inl err)
    then show ?thesis by (simp add: loop_body_def)
  next
    case (Inr r)
    obtain t s1 where r: "r = (t, s1)" by (cases r)
    let ?s1 = "s1\<lparr>stdout := stdout s1 @ [report_line e k n t]\<rparr>"
    show ?thesis
      using Inr r
      by (cases "trials_in_order e (map (Pair k) ns) ?s1")
         (auto simp: loop_body_def Cons.IH)
  qed
qed

lemma for_k_trials:
  "for_k e ks ns (acc, s) =
     and_then (trials_in_order e (List.product ks ns) s) (\<lambda>(ts, s'). Inr (acc @ ts, s'))"
proof (induction ks arbitrary: acc s)
  case Nil
  show ?case by simp
next
  case (Cons k ks)
  show ?case
  proof (cases "trials_in_order e (map (Pair k) ns) s")
    case (Inl err)
    then show ?thesis by (simp add: for_n_trials trials_in_order_append)
  next
    case (Inr r)
    obtain ts1 s1 where r: "r = (ts1, s1)" by (cases r)
    show ?thesis
      using Inr r
      by (cases "trials_in_order e (List.product ks ns) s1")
         (auto simp: for_n_trials trials_in_order_append Cons.IH)
  qed
qed

lemma grid_product: "grid = List.product [10, 100] [10, 100, 1000, 5000, 10000, 100000]"
  by (simp add: grid_def)

lemma grid_ssize_t: "\<forall>x \<in> set grid. ssize_t (fst x)"
  by (simp add: grid_def ssize_t_def)

lemma ssize_t_grid_k: "ssize_t 10" "ssize_t 100"
  by (simp_all add: ssize_t_def)

lemma run_benchmarks_trials: "run_benchmarks e s = trials_in_order e grid s"
proof -
  have "run_benchmarks e s =
          and_then (trials_in_order e grid s) (\<lambda>(ts, s'). Inr ([] @ ts, s'))"
    unfolding run_benchmarks_def grid_product by (rule for_k_trials)
  also have "\<dots> = trials_in_order e grid s"
    by (cases "trials_in_order e grid s") auto
  finally show ?thesis .
qed

lemma trials_in_order_printed:
  assumes "trials_in_order e g s = Inr (ts, s')"
  shows "length ts = length g \<and> stdout s' = stdout s @ printed_lines e g ts"
  using assms
proof (induction g arbitrary: s ts)
  case Nil
  then show ?case by simp
next
  case (Cons x g)
  obtain k n where x: "x = (k, n)" by (cases x)
  from Cons.prems obtain t s1 us where
    first: "time_trial e k n s = Inr (t, s1)" and
    rest: "trials_in_order e g (s1\<lparr>stdout := stdout s1 @ [report_line e k n t]\<rparr>)
             = Inr (us, s')" and
    ts: "ts = t # us"
    by (auto simp: x and_then_eq_Inr)
  from Cons.IH[OF rest] time_trial_stdout[OF first] show ?case
    by (simp add: x ts)
qed

lemma printed_lines_prefixed:
  "printed_lines e g ts =
     map2 (\<lambda>prefix t. prefix @ float_str e t @ '' ms'')
       (map (\<lambda>(k, n). ''k='' @ str_int k @ '', n='' @ str_int n @ '', '') g) ts"
  by (induction e g ts rule: printed_lines.induct) (simp_all add: report_line_def)

lemma grid_prefixes:
  "map (\<lambda>(k, n). ''k='' @ str_int k @ '', n='' @ str_int n @ '', '') grid =
     [''k=10, n=10, '', ''k=10, n=100, '', ''k=10, n=1000, '', ''k=10, n=5000, '',
      ''k=10, n=10000, '', ''k=10, n=100000, '',
      ''k=100, n=10, '', ''k=100, n=100, '', ''k=100, n=1000, '', ''k=100, n=5000, '',
      ''k=100, n=10000, '', ''k=100, n=100000, '']"
  by (simp add: grid_def str_int_def digits.simps digit_char_def)

lemma printed_lines_nth:
  assumes "length ts = length g" and "i < length ts"
  shows "printed_lines e g ts ! i = report_line e (fst (g ! i)) (snd (g ! i)) (ts ! i)"
  using assms
proof (induction e g ts arbitrary: i rule: printed_lines.induct)
  case (1 e k n rest t ts)
  then show ?case by (cases i) simp_all
qed simp_all

lemma printed_lines_length:
  assumes "length ts = length g"
  shows "length (printed_lines e g ts) = length ts"
  using assms by (induction e g ts rule: printed_lines.induct) simp_all

section \<open>Runs that complete\<close>

lemma stmt_total:
  assumes "library_total e"
  shows "\<exists>w1. stmt e label w = Inr w1"
proof -
  from assms obtain p w1 where a: "PauliList e label w = Inr (p, w1)"
    unfolding library_total_def by (metis surj_pair)
  from assms obtain op w2 where b: "SparsePauliOp e p w1 = Inr (op, w2)"
    unfolding library_total_def by (metis surj_pair)
  from assms obtain res w3 where c: "simplify e op w2 = Inr (res, w3)"
    unfolding library_total_def by (metis surj_pair)
  from a b c show ?thesis by (simp add: stmt_def)
qed

lemma repeat_stmt_total:
  assumes "library_total e"
  shows "\<exists>w1. repeat_stmt (stmt e label) m w = Inr w1"
proof (induction m arbitrary: w)
  case 0
  show ?case by simp
next
  case (Suc m)
  from stmt_total[OF assms] obtain w1 where "stmt e label w = Inr w1" by blast
  with Suc.IH[of w1] show ?case by simp
qed

lemma timeit_total:
  assumes "library_total e"
  shows "\<exists>t w1. timeit e (stmt e label) number w = Inr (t, w1)"
proof -
  obtain t0 w0 where c0: "perf_counter e w = (t0, w0)" by (cases "perf_counter e w")
  from repeat_stmt_total[OF assms] obtain w1 where
    r: "repeat_stmt (stmt e label) (nat number) w0 = Inr w1" by blast
  obtain t1 w2 where c1: "perf_counter e w1 = (t1, w2)" by (cases "perf_counter e w1")
  from c0 r c1 show ?thesis by (simp add: timeit_def)
qed

lemma time_trial_total:
  assumes "unit_interval e" and "library_total e" and "ssize_t k"
  shows "\<exists>t s'. time_trial e k n s = Inr (t, s')"
proof -
  from rand_label_total[OF assms(1,3)] obtain label g1 where
    l: "rand_label e k n (rng s) = Inr (label, g1)" by blast
  from timeit_total[OF assms(2)] obtain t w1 where
    "timeit e (stmt e label) (if 10000 \<le> n then 1 else 20) (world s) = Inr (t, w1)"
    by blast
  with l show ?thesis by (simp add: time_trial_def Let_def)
qed

lemma trials_in_order_total:
  assumes "unit_interval e" and "library_total e" and "\<forall>x \<in> set g. ssize_t (fst x)"
  shows "\<exists>ts s'. trials_in_order e g s = Inr (ts, s')"
  using assms(3)
proof (induction g arbitrary: s)
  case Nil
  show ?case by simp
next
  case (Cons x g)
  obtain k n where x: "x = (k, n)" by (cases x)
  from Cons.prems have k: "ssize_t k" by (simp add: x)
  from time_trial_total[OF assms(1,2) k] obtain t s1 where
    t: "time_trial e k n s = Inr (t, s1)" by blast
  from Cons.prems have "\<forall>x \<in> set g. ssize_t (fst x)" by simp
  from Cons.IH[OF this] obtain ts s' where
    "trials_in_order e g (s1\<lparr>stdout := stdout s1 @ [report_line e k n t]\<rparr>) = Inr (ts, s')"
    by blast
  with t show ?case by (simp add: x)
qed

section \<open>The script in an observed environment\<close>

lemma observed_simps [simp]:
  "seed (observed e) = seed e"
  "random (observed e) = random e"
  "float_str (observed e) = float_str e"
  "perf_counter (observed e) (w, tr) =
     (case perf_counter e w of (t, w1) \<Rightarrow> (t, (w1, tr @ [Clock t])))"
  "PauliList (observed e) label (w, tr) =
     and_then (PauliList e label w) (\<lambda>(p, w1). Inr (p, (w1, tr @ [Construct label])))"
  "SparsePauliOp (observed e) p (w, tr) =
     and_then (SparsePauliOp e p w) (\<lambda>(op, w1). Inr (op, (w1, tr @ [Wrap])))"
  "simplify (observed e) op (w, tr) =
     and_then (simplify e op w) (\<lambda>(res, w1). Inr (res, (w1, tr @ [Canonicalize])))"
  by (simp_all add: observed_def)

lemma unit_interval_observed: "unit_interval (observed e) = unit_interval e"
  by (simp add: unit_interval_def)

lemma library_total_observed:
  assumes "library_total e"
  shows "library_total (observed e)"
proof -
  have a: "\<exists>r. PauliList (observed e) label wt = Inr r" for label wt
  proof -
    obtain w tr where wt: "wt = (w, tr)" by (cases wt)
    from assms obtain p w1 where "PauliList e label w = Inr (p, w1)"
      unfolding library_total_def by (metis surj_pair)
    then show ?thesis by (simp add: wt)
  qed
  have b: "\<exists>r. SparsePauliOp (observed e) p wt = Inr r" for p wt
  proof -
    obtain w tr where wt: "wt = (w, tr)" by (cases wt)
    from assms obtain op w1 where "SparsePauliOp e p w = Inr (op, w1)"
      unfolding library_total_def by (metis surj_pair)
    then show ?thesis by (simp add: wt)
  qed
  have c: "\<exists>r. simplify (observed e) op wt = Inr r" for op wt
  proof -
    obtain w tr where wt: "wt = (w, tr)" by (cases wt)
    from assms obtain res w1 where "simplify e op w = Inr (res, w1)"
      unfolding library_total_def by (metis surj_pair)
    then show ?thesis by (simp add: wt)
  qed
  from a b c show ?thesis unfolding library_total_def by blast
qed

lemma report_line_observed: "report_line (observed e) k n t = report_line e k n t"
  by (simp add: report_line_def)

lemma stmt_observed:
  assumes "stmt (observed e) label (w, tr) = Inr wl"
  shows "\<exists>w1. wl = (w1, tr @ repetition label) \<and> stmt e label w = Inr w1"
  using assms
  by (auto simp: stmt_def repetition_def and_then_eq_Inr)

lemma repeat_stmt_observed:
  assumes "repeat_stmt (stmt (observed e) label) m (w, tr) = Inr wl"
  shows "\<exists>w1. wl = (w1, tr @ concat (replicate m (repetition label)))
           \<and> repeat_stmt (stmt e label) m w = Inr w1"
  using assms
proof (induction m arbitrary: w tr)
  case 0
  then show ?case by simp
next
  case (Suc m)
  from Suc.prems obtain wl1 where
    first: "stmt (observed e) label (w, tr) = Inr wl1" and
    rest: "repeat_stmt (stmt (observed e) label) m wl1 = Inr wl"
    by (auto simp: and_then_eq_Inr)
  from stmt_observed[OF first] obtain w1 where
    w1: "wl1 = (w1, tr @ repetition label)" "stmt e label w = Inr w1" by blast
  from Suc.IH[OF rest[unfolded w1(1)]] obtain w2 where
    "wl = (w2, (tr @ repetition label) @ concat (replicate m (repetition label)))"
    "repeat_stmt (stmt e label) m w1 = Inr w2" by blast
  with w1(2) show ?case by simp
qed

lemma timeit_observed:
  assumes "timeit (observed e) (stmt (observed e) label) number (w, tr) = Inr (t, wl)"
  shows "\<exists>t0 t1 w1. t = t1 - t0
           \<and> wl = (w1, tr @ [Clock t0] @ concat (replicate (nat number) (repetition label))
                         @ [Clock t1])
           \<and> timeit e (stmt e label) number w = Inr (t, w1)"
proof -
  obtain t0 w0 where c0: "perf_counter e w = (t0, w0)" by (cases "perf_counter e w")
  with assms obtain wl1 where
    rep: "repeat_stmt (stmt (observed e) label) (nat number) (w0, tr @ [Clock t0]) = Inr wl1"
    and fin: "(case perf_counter (observed e) wl1 of (t1, w2) \<Rightarrow> Inr (t1 - t0, w2))
                = (Inr (t, wl) :: error + _)"
    by (auto simp: timeit_def and_then_eq_Inr)
  from repeat_stmt_observed[OF rep] obtain w1 where
    w1: "wl1 = (w1, (tr @ [Clock t0]) @ concat (replicate (nat number) (repetition label)))"
      "repeat_stmt (stmt e label) (nat number) w0 = Inr w1" by blast
  obtain t1 w2 where c1: "perf_counter e w1 = (t1, w2)" by (cases "perf_counter e w1")
  have "perf_counter (observed e) wl1 =
          (t1, (w2, (tr @ [Clock t0]) @ concat (replicate (nat number) (repetition label))
                      @ [Clock t1]))"
    unfolding w1(1) by (simp add: c1)
  with fin have t: "t = t1 - t0" and wl:
    "wl = (w2, tr @ [Clock t0] @ concat (replicate (nat number) (repetition label)) @ [Clock t1])"
    by simp_all
  from c0 w1(2) c1 have run: "timeit e (stmt e label) number w = Inr (t1 - t0, w2)"
    by (simp add: timeit_def)
  show ?thesis
    apply (rule exI[of _ t0])
    apply (rule exI[of _ t1])
    apply (rule exI[of _ w2])
    apply (simp only: t wl run)
    done
qed

lemma time_trial_observed:
  assumes "time_trial (observed e) k n s = Inr (t, s')"
  shows "\<exists>label t0 t1. rand_label e k n (rng s) = Inr (label, rng s')
           \<and> stdout s' = stdout s
           \<and> events s' = events s @ [Clock t0]
                 @ concat (replicate (repetitions n) (repetition label)) @ [Clock t1]
           \<and> t = (t1 - t0) * 1000 / real (repetitions n)"
proof -
  obtain w tr where ws: "world s = (w, tr)" by (cases "world s")
  let ?number = "if 10000 \<le> n then 1 else 20 :: int"
  from assms obtain label g1 tm wl where
    lab: "rand_label (observed e) k n (rng s) = Inr (label, g1)" and
    tim: "timeit (observed e) (stmt (observed e) label) ?number (w, tr) = Inr (tm, wl)" and
    res: "t = tm * 1000 / real_of_int ?number" "s' = s\<lparr>rng := g1, world := wl\<rparr>"
    by (auto simp: time_trial_def and_then_eq_Inr ws Let_def)
  have lab': "rand_label e k n (rng s) = Inr (label, g1)"
    using lab rand_label_random[of "observed e" e k n "rng s"] by simp
  from timeit_observed[OF tim] obtain t0 t1 w1 where
    obs: "tm = t1 - t0"
      "wl = (w1, tr @ [Clock t0] @ concat (replicate (nat ?number) (repetition label))
                  @ [Clock t1])" by blast
  have num: "nat ?number = repetitions n" "real_of_int ?number = real (repetitions n)"
    by (simp_all add: repetitions_def)
  show ?thesis
    apply (rule exI[of _ label])
    apply (rule exI[of _ t0])
    apply (rule exI[of _ t1])
    apply (simp add: res obs lab' events_def ws num del: of_nat_numeral)
    done
qed

lemma constructed_append: "constructed (xs @ ys) = constructed xs @ constructed ys"
  by (induction xs rule: constructed.induct) simp_all

lemma constructed_repetitions:
  "constructed (concat (replicate m (repetition label))) = replicate m label"
  by (induction m) (simp_all add: repetition_def)

lemma time_trial_handed:
  assumes "time_trial (observed e) k n s = Inr (t, s')"
  shows "\<exists>label. rand_label e k n (rng s) = Inr (label, rng s')
           \<and> constructed (events s') = constructed (events s) @ replicate (repetitions n) label"
proof -
  from time_trial_observed[OF assms] obtain label t0 t1 where
    l: "rand_label e k n (rng s) = Inr (label, rng s')" and
    ev: "events s' = events s @ [Clock t0]
           @ concat (replicate (repetitions n) (repetition label)) @ [Clock t1]"
    by blast
  have "constructed (events s') = constructed (events s) @ replicate (repetitions n) label"
    unfolding ev by (simp add: constructed_append constructed_repetitions)
  with l show ?thesis by blast
qed

lemma trials_in_order_handed:
  assumes "trials_in_order (observed e) g s = Inr (ts, s')"
  shows "\<exists>bs. batches_from e g (rng s) = Inr (bs, rng s') \<and> length bs = length g
           \<and> constructed (events s') = constructed (events s) @ handed g bs"
  using assms
proof (induction g arbitrary: s ts)
  case Nil
  then show ?case by simp
next
  case (Cons x g)
  obtain k n where x: "x = (k, n)" by (cases x)
  let ?line = "\<lambda>t. report_line (observed e) k n t"
  from Cons.prems obtain t s1 us where
    first: "time_trial (observed e) k n s = Inr (t, s1)" and
    rest: "trials_in_order (observed e) g (s1\<lparr>stdout := stdout s1 @ [?line t]\<rparr>)
             = Inr (us, s')"
    by (auto simp: x and_then_eq_Inr)
  from time_trial_handed[OF first] obtain label where
    l: "rand_label e k n (rng s) = Inr (label, rng s1)" and
    c1: "constructed (events s1) = constructed (events s) @ replicate (repetitions n) label"
    by blast
  from Cons.IH[OF rest] obtain bs where
    b: "batches_from e g (rng s1) = Inr (bs, rng s')" and
    len: "length bs = length g" and
    c2: "constructed (events s') = constructed (events s1) @ handed g bs"
    by (auto simp: events_def)
  have "batches_from e (x # g) (rng s) = Inr (label # bs, rng s')"
    by (simp add: x l b)
  moreover have "constructed (events s') = constructed (events s) @ handed (x # g) (label # bs)"
    by (simp add: x c1 c2)
  ultimately show ?case using len by (intro exI[of _ "label # bs"]) simp
qed

lemma counter_env_ok: "unit_interval counter_env \<and> library_total counter_env"
  by (simp add: unit_interval_def library_total_def counter_env_def)

lemma busy_env_ok: "unit_interval busy_env \<and> library_total busy_env"
  by (simp add: unit_interval_def library_total_def busy_env_def)

lemma observed_ok:
  assumes "unit_interval e \<and> library_total e"
  shows "unit_interval (observed e)" and "library_total (observed e)"
  using assms by (simp_all add: unit_interval_observed library_total_observed)



section \<open>Samples as floats\<close>

lemma threshold_large: "2 ^ 1011 < overflow_threshold"
proof -
  have "(2::real) ^ 1024 = 2 ^ 970 * 2 ^ 54" by (simp add: power_add[symmetric])
  moreover have "(2::real) ^ 1011 = 2 ^ 970 * 2 ^ 41" by (simp add: power_add[symmetric])
  moreover have "(2::real) ^ 41 < 2 ^ 54 - 1" by simp
  then have "(2::real) ^ 970 * 2 ^ 41 < 2 ^ 970 * (2 ^ 54 - 1)" by simp
  ultimately show ?thesis by (simp add: overflow_threshold_def algebra_simps)
qed

lemma rounded_finite:
  assumes "\<bar>x\<bar> \<le> 2 ^ 1011"
  shows "rounded x = Finite x"
  using assms threshold_large by (simp add: rounded_def abs_le_iff)

lemma small_ints_convert:
  "int_to_float 1000 = Inr (Finite 1000)"
  "int_to_float 1 = Inr (Finite 1)"
  "int_to_float 20 = Inr (Finite 20)"
proof -
  have "(1000::real) < 2 ^ 1011" "(1::real) < 2 ^ 1011" "(20::real) < 2 ^ 1011" by simp_all
  with threshold_large show
    "int_to_float 1000 = Inr (Finite 1000)"
    "int_to_float 1 = Inr (Finite 1)"
    "int_to_float 20 = Inr (Finite 20)"
    by (simp_all add: int_to_float_def)
qed

lemma float_sample_in_range:
  assumes "t0 \<le> t1" and "\<bar>t0\<bar> \<le> clock_range" and "\<bar>t1\<bar> \<le> clock_range"
    and "number = 1 \<or> number = 20"
  shows "float_sample (Finite t0) (Finite t1) number
           = Inr (Finite ((t1 - t0) * 1000 / real_of_int number))"
    and "0 \<le> (t1 - t0) * 1000 / real_of_int number"
proof -
  define x where "x = t1 - t0"
  define y where "y = x * 1000"
  define z where "z = y / real_of_int number"
  have pw: "(2::real) ^ 1011 = 2 ^ 1000 * 2048" by (simp add: power_add[symmetric])
  from assms(1,2,3) have x: "0 \<le> x" "x \<le> 2 * 2 ^ 1000"
    by (simp_all add: x_def clock_range_def abs_le_iff)
  then have x1: "\<bar>x\<bar> \<le> 2 ^ 1011" unfolding pw by simp
  from x have y: "0 \<le> y" "y \<le> 2 ^ 1011" unfolding pw y_def by simp_all
  then have y1: "\<bar>y\<bar> \<le> 2 ^ 1011" by simp
  from y assms(4) have z: "0 \<le> z" "z \<le> 2 ^ 1011"
    unfolding z_def by (auto simp: field_simps)
  then have z1: "\<bar>z\<bar> \<le> 2 ^ 1011" by simp
  from assms(4) have conv: "int_to_float number = Inr (Finite (real_of_int number))"
    and nz: "real_of_int number \<noteq> 0"
    by (auto simp: small_ints_convert)
  have s1: "float_sub (Finite t1) (Finite t0) = Finite x"
    using rounded_finite[OF x1] by (simp add: x_def)
  have s2: "float_mul (Finite x) (Finite 1000) = Finite y"
    using rounded_finite[OF y1] by (simp add: y_def)
  have s3: "float_truediv (Finite y) (Finite (real_of_int number)) = Inr (Finite z)"
    using rounded_finite[OF z1] nz by (simp add: z_def)
  have "float_sample (Finite t0) (Finite t1) number = Inr (Finite z)"
    unfolding float_sample_def small_ints_convert(1) conv and_then_Inr s1 s2 s3 ..
  then show "float_sample (Finite t0) (Finite t1) number
          = Inr (Finite ((t1 - t0) * 1000 / real_of_int number))"
    by (simp only: z_def y_def x_def)
  from z(1) show "0 \<le> (t1 - t0) * 1000 / real_of_int number"
    by (simp only: z_def y_def x_def)
qed

lemma readings_append: "readings (xs @ ys) = readings xs @ readings ys"
  by (induction xs rule: readings.induct) simp_all

lemma readings_repetitions: "readings (concat (replicate m (repetition label))) = []"
  by (induction m) (simp_all add: repetition_def)

lemma first_pass_readings:
  "pass_readings (loop_body (observed counter_env) 10 10
                    ([], \<lparr>rng = 0, world = (0, []), stdout = []\<rparr>)) = [0, 60]"
  by code_simp

section \<open>The claims\<close>

text \<open>
  C1, as the code has it. For positive \<open>k\<close> and \<open>n\<close> with \<open>k < 2^63\<close>, and a generator
  that returns values in \<open>[0, 1)\<close>, \<open>rand_label k n\<close> returns a list of exactly \<open>n\<close>
  strings, each of exactly \<open>k\<close> characters, every character one of \<open>I\<close>, \<open>X\<close>, \<open>Y\<close>,
  \<open>Z\<close>.
\<close>

theorem rand_label_shape:
  assumes "unit_interval e" and "0 < k" and "k < 2 ^ 63" and "0 < n"
  shows "\<exists>ls g'. rand_label e k n g = Inr (ls, g') \<and> int (length ls) = n
           \<and> (\<forall>l \<in> set ls. int (length l) = k
                 \<and> set l \<subseteq> {CHR ''I'', CHR ''X'', CHR ''Y'', CHR ''Z''})"
proof -
  from assms(2,3) have "ssize_t k" by (simp add: ssize_t_def)
  from labels_from_ok[OF assms(1) this, of "nat n" g] obtain ls g' where
    "labels_from e k (nat n) g = Inr (ls, g')" "length ls = nat n"
    "\<forall>l \<in> set ls. length l = nat k
        \<and> set l \<subseteq> {CHR ''I'', CHR ''X'', CHR ''Y'', CHR ''Z''}" by blast
  with assms(2,4) show ?thesis by (auto simp: rand_label_def)
qed

text \<open>
  The same at \<open>k = 2\<close>, \<open>n = 3\<close> with the counting generator.
\<close>

theorem rand_label_shape_witness:
  "unit_interval counter_env \<and> (0::int) < 2 \<and> (2::int) < 2 ^ 63 \<and> (0::int) < 3
   \<and> (\<exists>ls g'. rand_label counter_env 2 3 0 = Inr (ls, g') \<and> int (length ls) = 3
         \<and> (\<forall>l \<in> set ls. int (length l) = 2
               \<and> set l \<subseteq> {CHR ''I'', CHR ''X'', CHR ''Y'', CHR ''Z''}))"
proof -
  have u: "unit_interval counter_env"
    by (simp add: unit_interval_def counter_env_def)
  from rand_label_shape[OF u, of 2 3 0] show ?thesis using u by simp
qed

text \<open>
  C1, as stated, is for every positive \<open>k\<close>. At \<open>k = 2^63\<close> and \<open>n = 1\<close> the call
  raises \<^verbatim>\<open>OverflowError\<close> and returns no label.
\<close>

theorem rand_label_shape_counterexample:
  "rand_label counter_env (2 ^ 63) 1 0 = Inl OverflowError"
  by (simp add: rand_label_def choices_def ssize_t_def)

text \<open>
  C2. \<open>run_benchmarks\<close> is the twelve trials run one after the other in the nested
  order of the two loops: \<open>k = 10\<close> with \<open>n = 10, 100, 1000, 5000, 10000, 100000\<close>, then
  \<open>k = 100\<close> with the same \<open>n\<close>. A run that returns, returns exactly twelve samples,
  the sample of each trial at the position of its trial; and a run returns whenever the
  generator stays in \<open>[0, 1)\<close> and the library does not raise.
\<close>

theorem run_benchmarks_grid:
  "run_benchmarks e s =
     trials_in_order e
       [(10, 10), (10, 100), (10, 1000), (10, 5000), (10, 10000), (10, 100000),
        (100, 10), (100, 100), (100, 1000), (100, 5000), (100, 10000), (100, 100000)] s
   \<and> (\<forall>ts s'. run_benchmarks e s = Inr (ts, s') \<longrightarrow> length ts = 12)
   \<and> (unit_interval e \<and> library_total e \<longrightarrow> (\<exists>ts s'. run_benchmarks e s = Inr (ts, s')))"
proof (intro conjI allI impI)
  show "run_benchmarks e s =
     trials_in_order e
       [(10, 10), (10, 100), (10, 1000), (10, 5000), (10, 10000), (10, 100000),
        (100, 10), (100, 100), (100, 1000), (100, 5000), (100, 10000), (100, 100000)] s"
    using run_benchmarks_trials[of e s] by (simp add: grid_def)
next
  fix ts s'
  assume "run_benchmarks e s = Inr (ts, s')"
  then have "trials_in_order e grid s = Inr (ts, s')" by (simp add: run_benchmarks_trials)
  from trials_in_order_printed[OF this] show "length ts = 12" by (simp add: grid_def)
next
  assume "unit_interval e \<and> library_total e"
  then show "\<exists>ts s'. run_benchmarks e s = Inr (ts, s')"
    using trials_in_order_total[of e grid s] grid_ssize_t by (simp add: run_benchmarks_trials)
qed

text \<open>
  With the counting generator and the unit-cost library the run returns, with twelve
  samples.
\<close>

theorem run_benchmarks_grid_witness:
  "\<exists>ts s'. run_benchmarks counter_env \<lparr>rng = 0, world = 0, stdout = []\<rparr> = Inr (ts, s')
     \<and> length ts = 12"
  using run_benchmarks_grid[of counter_env "\<lparr>rng = 0, world = 0, stdout = []\<rparr>"]
    counter_env_ok by blast

text \<open>
  C3. In every trial the clock is read, the timed statement is run exactly once when
  \<open>n \<ge> 10000\<close> and exactly twenty times when \<open>n < 10000\<close>, and the clock is read again.
  The count is a function of \<open>n\<close> alone: \<open>k\<close> does not occur in it.
\<close>

theorem repetition_count_policy:
  assumes "time_trial (observed e) k n s = Inr (t, s')"
  shows "\<exists>label t0 t1. events s' = events s @ [Clock t0]
           @ concat (replicate (if 10000 \<le> n then 1 else 20) (repetition label)) @ [Clock t1]"
  using time_trial_observed[OF assms] unfolding repetitions_def by blast

text \<open>
  The trial \<open>k = 100\<close>, \<open>n = 5000\<close> of the grid: twenty repetitions between the two
  clock readings.
\<close>

theorem repetition_count_policy_witness:
  "\<exists>t s' label t0 t1.
     time_trial (observed counter_env) 100 5000 \<lparr>rng = 0, world = (0, []), stdout = []\<rparr>
       = Inr (t, s')
     \<and> events s' = [Clock t0] @ concat (replicate 20 (repetition label)) @ [Clock t1]"
proof -
  let ?s = "\<lparr>rng = 0, world = (0, []), stdout = []\<rparr> :: (nat, real \<times> event list) state"
  from time_trial_total[OF observed_ok[OF counter_env_ok] ssize_t_grid_k(2), where n = 5000 and s = ?s] obtain t s' where
    r: "time_trial (observed counter_env) 100 5000 ?s = Inr (t, s')" by blast
  from repetition_count_policy[OF r] r show ?thesis by (simp add: events_def)
qed

text \<open>
  C4. Two runs of the script, both with the generator seeded with 123, in any two
  worlds (different clocks, different library behaviour, different timings): the twelve
  batches are the ones the seeded generator yields over the grid, and the constructor
  is handed the same sequence of batches in both runs. The library is outside the
  script and has no access to the script's generator; that is how the environment is
  modelled.
\<close>

theorem labels_deterministic:
  assumes "seed e1 = seed e2" and "random e1 = random e2"
    and "main (observed e1) (w1, []) = Inr (ts1, s1)"
    and "main (observed e2) (w2, []) = Inr (ts2, s2)"
  shows "\<exists>bs g'. batches_from e1 grid (seed e1 123) = Inr (bs, g') \<and> length bs = 12
           \<and> constructed (events s1) = handed grid bs
           \<and> constructed (events s2) = handed grid bs"
proof -
  let ?i1 = "\<lparr>rng = seed e1 123, world = (w1, []), stdout = []\<rparr>"
  let ?i2 = "\<lparr>rng = seed e2 123, world = (w2, []), stdout = []\<rparr>"
  from assms(3) have "trials_in_order (observed e1) grid ?i1 = Inr (ts1, s1)"
    by (simp add: main_def run_benchmarks_trials)
  from trials_in_order_handed[OF this] obtain bs where
    b1: "batches_from e1 grid (seed e1 123) = Inr (bs, rng s1)" and
    len: "length bs = length grid" and
    c1: "constructed (events s1) = handed grid bs"
    by (auto simp: events_def)
  from assms(4) have "trials_in_order (observed e2) grid ?i2 = Inr (ts2, s2)"
    by (simp add: main_def run_benchmarks_trials)
  from trials_in_order_handed[OF this] obtain bs' where
    b2: "batches_from e2 grid (seed e2 123) = Inr (bs', rng s2)" and
    c2: "constructed (events s2) = handed grid bs'"
    by (auto simp: events_def)
  from b1 b2 have "bs' = bs"
    unfolding batches_from_random[OF assms(2)] assms(1) by simp
  with b1 len c1 c2 show ?thesis by (simp add: grid_def)
qed

text \<open>
  The counting environment from world 0 and the busy environment from world 5: both
  runs return, and the constructor sees the same batches.
\<close>

theorem labels_deterministic_witness:
  "\<exists>ts1 s1 ts2 s2 bs g'.
     main (observed counter_env) (0, []) = Inr (ts1, s1)
     \<and> main (observed busy_env) (5, []) = Inr (ts2, s2)
     \<and> batches_from counter_env grid (seed counter_env 123) = Inr (bs, g') \<and> length bs = 12
     \<and> constructed (events s1) = handed grid bs
     \<and> constructed (events s2) = handed grid bs"
proof -
  have same: "seed counter_env = seed busy_env" "random counter_env = random busy_env"
    by (simp_all add: counter_env_def busy_env_def)
  from trials_in_order_total[OF observed_ok[OF counter_env_ok] grid_ssize_t] obtain ts1 s1 where
    r1: "main (observed counter_env) (0, []) = Inr (ts1, s1)"
    unfolding main_def run_benchmarks_trials by blast
  from trials_in_order_total[OF observed_ok[OF busy_env_ok] grid_ssize_t] obtain ts2 s2 where
    r2: "main (observed busy_env) (5, []) = Inr (ts2, s2)"
    unfolding main_def run_benchmarks_trials by blast
  from labels_deterministic[OF same r1 r2] r1 r2 show ?thesis by blast
qed




text \<open>
  C6. In every pass through the loop body the sample that is appended and printed is
  \<open>(t1 - t0) * 1000 / number\<close>, where \<open>number\<close> is the repetition count and \<open>t0\<close> and
  \<open>t1\<close> are the two clock readings that enclose all \<open>number\<close> repetitions of
  construct, wrap, canonicalize, and nothing else.
\<close>

theorem reported_duration:
  assumes "loop_body (observed e) k n (acc, s) = Inr (acc', s')"
  shows "\<exists>label t0 t1.
           events s' = events s @ [Clock t0]
             @ concat (replicate (repetitions n) (repetition label)) @ [Clock t1]
           \<and> acc' = acc @ [(t1 - t0) * 1000 / real (repetitions n)]
           \<and> stdout s' = stdout s
               @ [report_line e k n ((t1 - t0) * 1000 / real (repetitions n))]"
proof -
  from assms obtain t s1 where
    m: "time_trial (observed e) k n s = Inr (t, s1)" and
    acc': "acc' = acc @ [t]" and
    s': "s' = s1\<lparr>stdout := stdout s1 @ [report_line (observed e) k n t]\<rparr>"
    by (auto simp: loop_body_def and_then_eq_Inr)
  from time_trial_observed[OF m] obtain label t0 t1 where
    out: "stdout s1 = stdout s" and
    ev: "events s1 = events s @ [Clock t0]
           @ concat (replicate (repetitions n) (repetition label)) @ [Clock t1]" and
    t: "t = (t1 - t0) * 1000 / real (repetitions n)"
    by blast
  have "events s' = events s1" by (simp add: s' events_def)
  with ev acc' s' out t show ?thesis
    by (intro exI[of _ label] exI[of _ t0] exI[of _ t1]) (simp add: report_line_observed)
qed

text \<open>
  The first trial of the grid in the counting environment.
\<close>

theorem reported_duration_witness:
  "\<exists>acc' s' label t0 t1.
     loop_body (observed counter_env) 10 10 ([], \<lparr>rng = 0, world = (0, []), stdout = []\<rparr>)
       = Inr (acc', s')
     \<and> events s' = [Clock t0] @ concat (replicate 20 (repetition label)) @ [Clock t1]
     \<and> acc' = [(t1 - t0) * 1000 / 20]
     \<and> stdout s' = [report_line counter_env 10 10 ((t1 - t0) * 1000 / 20)]"
proof -
  let ?s = "\<lparr>rng = 0, world = (0, []), stdout = []\<rparr> :: (nat, real \<times> event list) state"
  from time_trial_total[OF observed_ok[OF counter_env_ok] ssize_t_grid_k(1), where n = 10 and s = ?s] obtain t s1 where
    "time_trial (observed counter_env) 10 10 ?s = Inr (t, s1)" by blast
  then obtain acc' s' where
    r: "loop_body (observed counter_env) 10 10 ([], ?s) = Inr (acc', s')"
    by (simp add: loop_body_def)
  from reported_duration[OF r] r show ?thesis
    by (simp add: events_def repetitions_def)
qed

text \<open>
  C7. A run that returns has printed exactly twelve lines, one per combination in
  grid order, each of the form \<^verbatim>\<open>k=<k>, n=<n>, <duration> ms\<close> with the duration
  rendered by the default conversion of a float to text.
\<close>

theorem printed_output:
  assumes "run_benchmarks e s = Inr (ts, s')"
  shows "length ts = 12 \<and>
         stdout s' = stdout s @
           map2 (\<lambda>prefix t. prefix @ float_str e t @ '' ms'')
             [''k=10, n=10, '', ''k=10, n=100, '', ''k=10, n=1000, '', ''k=10, n=5000, '',
              ''k=10, n=10000, '', ''k=10, n=100000, '',
              ''k=100, n=10, '', ''k=100, n=100, '', ''k=100, n=1000, '', ''k=100, n=5000, '',
              ''k=100, n=10000, '', ''k=100, n=100000, ''] ts"
proof -
  from assms have "trials_in_order e grid s = Inr (ts, s')"
    by (simp add: run_benchmarks_trials)
  from trials_in_order_printed[OF this]
  have "length ts = length grid" and "stdout s' = stdout s @ printed_lines e grid ts"
    by simp_all
  then show ?thesis
    unfolding printed_lines_prefixed grid_prefixes by (simp add: grid_def)
qed

text \<open>
  The lines of a run in the counting environment, whose floats all render as
  \<^verbatim>\<open>?\<close>.
\<close>

theorem printed_output_witness:
  "\<exists>ts s'. run_benchmarks counter_env \<lparr>rng = 0, world = 0, stdout = []\<rparr> = Inr (ts, s')
     \<and> length ts = 12
     \<and> stdout s' =
           map2 (\<lambda>prefix t. prefix @ ''? ms'')
             [''k=10, n=10, '', ''k=10, n=100, '', ''k=10, n=1000, '', ''k=10, n=5000, '',
              ''k=10, n=10000, '', ''k=10, n=100000, '',
              ''k=100, n=10, '', ''k=100, n=100, '', ''k=100, n=1000, '', ''k=100, n=5000, '',
              ''k=100, n=10000, '', ''k=100, n=100000, ''] ts"
proof -
  let ?s = "\<lparr>rng = 0, world = 0, stdout = []\<rparr> :: (nat, real) state"
  from trials_in_order_total[of counter_env grid ?s] counter_env_ok grid_ssize_t obtain ts s' where
    r: "run_benchmarks counter_env ?s = Inr (ts, s')"
    unfolding run_benchmarks_trials by blast
  have f: "float_str counter_env = (\<lambda>t. ''?'')" by (simp add: counter_env_def)
  from printed_output[OF r] r show ?thesis unfolding f by simp
qed

text \<open>
  C8. In every pass through the loop body in which the clock does not run backwards
  and its readings are of magnitude at most \<open>2^1000\<close> seconds, the sample that is
  appended and printed is what the float computation yields from the two readings of
  the pass, a finite float (no infinity, no NaN), and it is not negative.
  \<^verbatim>\<open>time.perf_counter\<close> is documented as monotonic.
\<close>

theorem sample_finite_nonnegative:
  assumes "loop_body (observed e) k n (acc, s) = Inr (acc', s')"
    and "sorted (readings (drop (length (events s)) (events s')))"
    and "\<forall>t \<in> set (readings (drop (length (events s)) (events s'))). \<bar>t\<bar> \<le> clock_range"
  shows "\<exists>t0 t1 d.
           readings (drop (length (events s)) (events s')) = [t0, t1]
           \<and> float_sample (Finite t0) (Finite t1) (if 10000 \<le> n then 1 else 20)
               = Inr (Finite d)
           \<and> 0 \<le> d
           \<and> acc' = acc @ [d]
           \<and> stdout s' = stdout s @ [report_line e k n d]"
proof -
  let ?number = "if 10000 \<le> n then 1 else 20 :: int"
  from assms(1) obtain t s1 where
    m: "time_trial (observed e) k n s = Inr (t, s1)" and
    acc': "acc' = acc @ [t]" and
    s': "s' = s1\<lparr>stdout := stdout s1 @ [report_line (observed e) k n t]\<rparr>"
    by (auto simp: loop_body_def and_then_eq_Inr)
  from time_trial_observed[OF m] obtain label t0 t1 where
    out: "stdout s1 = stdout s" and
    ev: "events s1 = events s @ [Clock t0]
           @ concat (replicate (repetitions n) (repetition label)) @ [Clock t1]" and
    t: "t = (t1 - t0) * 1000 / real (repetitions n)"
    by blast
  have "events s' = events s1" by (simp add: s' events_def)
  with ev have rd: "readings (drop (length (events s)) (events s')) = [t0, t1]"
    by (simp add: readings_append readings_repetitions)
  from assms(2,3) have le: "t0 \<le> t1" and r0: "\<bar>t0\<bar> \<le> clock_range"
    and r1: "\<bar>t1\<bar> \<le> clock_range"
    unfolding rd by simp_all
  have num: "?number = 1 \<or> ?number = 20" by simp
  have rn: "real (repetitions n) = real_of_int ?number" by (simp add: repetitions_def)
  from float_sample_in_range[OF le r0 r1 num]
  have fs: "float_sample (Finite t0) (Finite t1) ?number = Inr (Finite t)" and nn: "0 \<le> t"
    unfolding t rn by simp_all
  from out s' have pr: "stdout s' = stdout s @ [report_line e k n t]"
    by (simp add: report_line_observed)
  from rd fs nn acc' pr show ?thesis by blast
qed

text \<open>
  The first trial of the grid in the counting environment: the clock reads 0 and then
  60.
\<close>

theorem sample_finite_nonnegative_witness:
  "\<exists>acc' s' d.
     loop_body (observed counter_env) 10 10 ([], \<lparr>rng = 0, world = (0, []), stdout = []\<rparr>)
       = Inr (acc', s')
     \<and> readings (events s') = [0, 60]
     \<and> float_sample (Finite 0) (Finite 60) 20 = Inr (Finite d)
     \<and> 0 \<le> d
     \<and> acc' = [d]
     \<and> stdout s' = [report_line counter_env 10 10 d]"
proof -
  let ?s = "\<lparr>rng = 0, world = (0, []), stdout = []\<rparr> :: (nat, real \<times> event list) state"
  from time_trial_total[OF observed_ok[OF counter_env_ok] ssize_t_grid_k(1),
      where n = 10 and s = ?s]
  obtain t s1 where "time_trial (observed counter_env) 10 10 ?s = Inr (t, s1)" by blast
  then obtain acc' s' where
    r: "loop_body (observed counter_env) 10 10 ([], ?s) = Inr (acc', s')"
    by (simp add: loop_body_def)
  from first_pass_readings r have rd: "readings (events s') = [0, 60]"
    by (simp add: pass_readings_def)
  have e0: "events ?s = []" by (simp add: events_def)
  have h1: "sorted (readings (drop (length (events ?s)) (events s')))"
    by (simp add: e0 rd)
  have h2: "\<forall>t \<in> set (readings (drop (length (events ?s)) (events s'))). \<bar>t\<bar> \<le> clock_range"
    by (simp add: e0 rd clock_range_def)
  from sample_finite_nonnegative[OF r h1 h2] r rd e0 show ?thesis
    by auto
qed

text \<open>
  C9, as the code has it. For \<open>n \<le> 0\<close> and any \<open>k\<close>, \<open>rand_label\<close> returns the empty
  list; for \<open>n > 0\<close> and \<open>-2^63 \<le> k \<le> 0\<close> it returns \<open>n\<close> empty strings; in both
  cases no error is raised and the generator is not read. For \<open>n > 0\<close> and a \<open>k\<close>
  outside \<open>[-2^63, 2^63)\<close> it raises \<^verbatim>\<open>OverflowError\<close>, and for every other pair of
  integers it returns as long as the generator stays in \<open>[0, 1)\<close>.
\<close>

theorem rand_label_nonpositive:
  "(n \<le> 0 \<longrightarrow> rand_label e k n g = Inr ([], g))
   \<and> (0 < n \<and> - (2 ^ 63) \<le> k \<and> k \<le> 0
        \<longrightarrow> rand_label e k n g = Inr (replicate (nat n) [], g))
   \<and> (0 < n \<and> (k < - (2 ^ 63) \<or> 2 ^ 63 \<le> k) \<longrightarrow> rand_label e k n g = Inl OverflowError)
   \<and> (unit_interval e \<and> - (2 ^ 63) \<le> k \<and> k < 2 ^ 63
        \<longrightarrow> (\<exists>ls g'. rand_label e k n g = Inr (ls, g')))"
proof (intro conjI impI)
  assume "n \<le> 0"
  then show "rand_label e k n g = Inr ([], g)" by (simp add: rand_label_def)
next
  assume a: "0 < n \<and> - (2 ^ 63) \<le> k \<and> k \<le> 0"
  then have "ssize_t k" by (simp add: ssize_t_def)
  with a show "rand_label e k n g = Inr (replicate (nat n) [], g)"
    by (simp add: rand_label_def labels_from_empty_strings)
next
  assume a: "0 < n \<and> (k < - (2 ^ 63) \<or> 2 ^ 63 \<le> k)"
  then have "\<not> ssize_t k" by (auto simp: ssize_t_def)
  moreover from a obtain m where "nat n = Suc m" by (cases "nat n") auto
  ultimately show "rand_label e k n g = Inl OverflowError"
    by (simp add: rand_label_def choices_def)
next
  assume a: "unit_interval e \<and> - (2 ^ 63) \<le> k \<and> k < 2 ^ 63"
  then have "ssize_t k" by (simp add: ssize_t_def)
  with a show "\<exists>ls g'. rand_label e k n g = Inr (ls, g')" by (simp add: rand_label_total)
qed

text \<open>
  Some non-positive arguments.
\<close>

theorem rand_label_nonpositive_witness:
  "rand_label counter_env 7 (- 2) 5 = Inr ([], 5)
   \<and> rand_label counter_env (2 ^ 70) 0 5 = Inr ([], 5)
   \<and> rand_label counter_env (- 1) 3 5 = Inr ([[], [], []], 5)
   \<and> rand_label counter_env 0 2 5 = Inr ([[], []], 5)
   \<and> rand_label counter_env (- (2 ^ 63)) 2 5 = Inr ([[], []], 5)
   \<and> rand_label counter_env (2 ^ 63) 2 5 = Inl OverflowError
   \<and> (\<exists>ls g'. rand_label counter_env (- 4) (- 4) 5 = Inr (ls, g'))"
proof -
  have u: "unit_interval counter_env" using counter_env_ok by simp
  show ?thesis
    using rand_label_nonpositive[of "- 2" counter_env 7 5]
      rand_label_nonpositive[of 0 counter_env "2 ^ 70" 5]
      rand_label_nonpositive[of 3 counter_env "- 1" 5]
      rand_label_nonpositive[of 2 counter_env 0 5]
      rand_label_nonpositive[of 2 counter_env "- (2 ^ 63)" 5]
      rand_label_nonpositive[of 2 counter_env "2 ^ 63" 5]
      rand_label_nonpositive[of "- 4" counter_env "- 4" 5] u
    by (simp add: numeral_3_eq_3 numeral_2_eq_2)
qed

text \<open>
  C9, as stated, has \<open>n\<close> empty strings returned for every \<open>n > 0\<close> and every
  \<open>k \<le> 0\<close>. At \<open>k = -2^63 - 1\<close> and \<open>n = 1\<close> the call raises \<^verbatim>\<open>OverflowError\<close>.
\<close>

theorem rand_label_nonpositive_counterexample:
  "rand_label counter_env (- (2 ^ 63) - 1) 1 0 = Inl OverflowError"
  by (simp add: rand_label_def choices_def ssize_t_def)

text \<open>
  C10. In a run that returns, as many lines are printed as samples are returned, and
  the \<open>i\<close>-th line printed is the line of the \<open>i\<close>-th combination rendered with the
  \<open>i\<close>-th returned sample.
\<close>

theorem returned_equals_printed:
  assumes "run_benchmarks e s = Inr (ts, s')"
  shows "length (stdout s') = length (stdout s) + length ts \<and>
         (\<forall>i < length ts.
            stdout s' ! (length (stdout s) + i)
              = report_line e (fst (grid ! i)) (snd (grid ! i)) (ts ! i))"
proof -
  from assms have "trials_in_order e grid s = Inr (ts, s')"
    by (simp add: run_benchmarks_trials)
  from trials_in_order_printed[OF this]
  have len: "length ts = length grid" and out: "stdout s' = stdout s @ printed_lines e grid ts"
    by simp_all
  show ?thesis
    unfolding out
    by (simp add: printed_lines_length[OF len] printed_lines_nth[OF len])
qed

text \<open>
  The same for a run in the counting environment, which starts with nothing
  printed.
\<close>

theorem returned_equals_printed_witness:
  "\<exists>ts s'. run_benchmarks counter_env \<lparr>rng = 0, world = 0, stdout = []\<rparr> = Inr (ts, s')
     \<and> length (stdout s') = length ts
     \<and> (\<forall>i < length ts.
            stdout s' ! i = report_line counter_env (fst (grid ! i)) (snd (grid ! i)) (ts ! i))"
proof -
  let ?s = "\<lparr>rng = 0, world = 0, stdout = []\<rparr> :: (nat, real) state"
  from trials_in_order_total[of counter_env grid ?s] counter_env_ok grid_ssize_t obtain ts s' where
    r: "run_benchmarks counter_env ?s = Inr (ts, s')"
    unfolding run_benchmarks_trials by blast
  from returned_equals_printed[OF r] r show ?thesis by simp
qed

end
